theory Spec2Isabelle
  imports Complex_Main "HOL-Library.Sublist"
begin

section \<open>Characters and the string helpers of Python used by app.py\<close>

text \<open>
  A Python \<open>str\<close> is modelled as a \<open>string\<close> whose characters are the code points
  0..255. The character classes below are the ones Python's \<open>re\<close> module and
  \<open>str.strip\<close>/\<open>str.split\<close> use on \<open>str\<close> values, restricted to that range:
  \<open>\s\<close> and \<open>str.isspace\<close> agree, \<open>\d\<close> is the decimal digits, \<open>\w\<close> is
  \<open>str.isalnum\<close> or the underscore, \<open>[A-Z]\<close> and \<open>[a-z]\<close> are the ASCII ranges.
\<close>

definition code :: "char \<Rightarrow> nat" where
  "code c = of_char c"

definition is_space :: "char \<Rightarrow> bool" where
  "is_space c = ((9 \<le> code c \<and> code c \<le> 13) \<or> (28 \<le> code c \<and> code c \<le> 32)
                 \<or> code c = 133 \<or> code c = 160)"

definition is_digit :: "char \<Rightarrow> bool" where
  "is_digit c = (48 \<le> code c \<and> code c \<le> 57)"

definition is_upper :: "char \<Rightarrow> bool" where
  "is_upper c = (65 \<le> code c \<and> code c \<le> 90)"

definition is_lower :: "char \<Rightarrow> bool" where
  "is_lower c = (97 \<le> code c \<and> code c \<le> 122)"

definition is_word :: "char \<Rightarrow> bool" where
  "is_word c = (is_digit c \<or> is_upper c \<or> is_lower c \<or> code c = 95
                \<or> code c = 170 \<or> code c = 178 \<or> code c = 179 \<or> code c = 181
                \<or> code c = 185 \<or> code c = 186 \<or> (188 \<le> code c \<and> code c \<le> 190)
                \<or> (192 \<le> code c \<and> code c \<le> 214) \<or> (216 \<le> code c \<and> code c \<le> 246)
                \<or> 248 \<le> code c)"

text \<open>\<open>s.strip()\<close>: whitespace removed at both ends.\<close>

definition strip :: "string \<Rightarrow> string" where
  "strip s = rev (dropWhile is_space (rev (dropWhile is_space s)))"

text \<open>\<open>s.split()\<close>: the maximal runs of non-whitespace characters, in order.\<close>

function split :: "string \<Rightarrow> string list" where
  "split s =
     (case dropWhile is_space s of
        [] \<Rightarrow> []
      | c # cs \<Rightarrow> takeWhile (\<lambda>x. \<not> is_space x) (c # cs)
                 # split (dropWhile (\<lambda>x. \<not> is_space x) cs))"
  by pat_completeness auto
termination
proof (relation "measure length")
  show "wf (measure length)" by simp
next
  fix s :: string and c cs
  assume a: "dropWhile is_space s = c # cs"
  have "length (dropWhile (\<lambda>x. \<not> is_space x) cs) \<le> length cs"
    by (rule length_dropWhile_le)
  moreover have "length (c # cs) \<le> length s"
    using length_dropWhile_le [of is_space s] a by simp
  ultimately show "(dropWhile (\<lambda>x. \<not> is_space x) cs, s) \<in> measure length"
    by simp
qed

declare split.simps [simp del]

text \<open>\<open>sep.join(ws)\<close>.\<close>

fun join :: "string \<Rightarrow> string list \<Rightarrow> string" where
  "join sep [] = []"
| "join sep [w] = w"
| "join sep (w # v # ws) = w @ sep @ join sep (v # ws)"

section \<open>The three regular expressions of generate_follow_up_questions\<close>

text \<open>
  \<open>re.sub(r'(\d+)[,;](\d+)', r'\1 \2', text)\<close>: scanning from the left, at a digit whose
  maximal digit run is followed by a comma or semicolon and one more digit, the separator
  becomes a space and the scan resumes after the second maximal digit run; everywhere
  else the character is copied and the scan moves on by one.
\<close>

function sub_number_separators :: "string \<Rightarrow> string" where
  "sub_number_separators [] = []"
| "sub_number_separators (c # cs) =
     (if is_digit c then
        (case dropWhile is_digit cs of
           sep # d # ds \<Rightarrow>
             if (sep = CHR '','' \<or> sep = CHR '';'') \<and> is_digit d
             then c # takeWhile is_digit cs @ CHR '' '' # takeWhile is_digit (d # ds)
                  @ sub_number_separators (dropWhile is_digit (d # ds))
             else c # sub_number_separators cs
         | _ \<Rightarrow> c # sub_number_separators cs)
      else c # sub_number_separators cs)"
  by pat_completeness auto
termination
proof (relation "measure length", goal_cases)
  case 1
  show ?case by simp
next
  case (2 c cs)
  show ?case by simp
next
  case (3 c cs sep r)
  show ?case by simp
next
  case (4 c cs sep r d ds)
  have "length (dropWhile is_digit (d # ds)) \<le> length (d # ds)"
    by (rule length_dropWhile_le)
  moreover have "length (sep # d # ds) \<le> length cs"
    using length_dropWhile_le [of is_digit cs] 4 by simp
  ultimately show ?case by simp
next
  case (5 c cs sep r d ds)
  show ?case by simp
next
  case (6 c cs)
  show ?case by simp
qed

text \<open>\<open>re.sub(r'\s+', ' ', text)\<close>: every maximal whitespace run becomes one space.\<close>

function collapse_whitespace :: "string \<Rightarrow> string" where
  "collapse_whitespace [] = []"
| "collapse_whitespace (c # cs) =
     (if is_space c then CHR '' '' # collapse_whitespace (dropWhile is_space cs)
      else c # collapse_whitespace cs)"
  by pat_completeness auto
termination
  by (relation "measure length") (auto simp: length_dropWhile_le less_Suc_eq_le)

text \<open>
  \<open>re.split(r'(?<!\w\.\w.)(?<![A-Z][a-z]\.)(?<=\.|\?|\!)\s', text)\<close>. A match is one
  whitespace character; the three look-behinds read the text in front of it, which is kept
  reversed in \<open>seen\<close>. The dot of the first look-behind matches anything but a newline.
\<close>

definition after_terminator :: "string \<Rightarrow> bool" where
  "after_terminator seen =
     (case seen of
        p # _ \<Rightarrow> p = CHR ''.'' \<or> p = CHR ''?'' \<or> p = CHR ''!''
      | [] \<Rightarrow> False)"

definition after_dotted_abbreviation :: "string \<Rightarrow> bool" where
  "after_dotted_abbreviation seen =
     (case seen of
        x # w2 # dot # w1 # _ \<Rightarrow> is_word w1 \<and> dot = CHR ''.'' \<and> is_word w2 \<and> code x \<noteq> 10
      | _ \<Rightarrow> False)"

definition after_title_abbreviation :: "string \<Rightarrow> bool" where
  "after_title_abbreviation seen =
     (case seen of
        dot # lo # up # _ \<Rightarrow> is_upper up \<and> is_lower lo \<and> dot = CHR ''.''
      | _ \<Rightarrow> False)"

definition sentence_boundary :: "string \<Rightarrow> char \<Rightarrow> bool" where
  "sentence_boundary seen c =
     (\<not> after_dotted_abbreviation seen \<and> \<not> after_title_abbreviation seen
      \<and> after_terminator seen \<and> is_space c)"

fun split_sentences_from :: "string \<Rightarrow> string \<Rightarrow> string \<Rightarrow> string list" where
  "split_sentences_from seen piece [] = [rev piece]"
| "split_sentences_from seen piece (c # cs) =
     (if sentence_boundary seen c
      then rev piece # split_sentences_from (c # seen) [] cs
      else split_sentences_from (c # seen) (c # piece) cs)"

definition split_sentences :: "string \<Rightarrow> string list" where
  "split_sentences text = split_sentences_from [] [] text"

section \<open>generate_follow_up_questions\<close>

definition question_of :: "string \<Rightarrow> string" where
  "question_of sentence = ''What about '' @ join '' '' (take 5 (split sentence)) @ ''?''"

text \<open>
  The \<open>for\<close> loop over the sentences, with the list built so far as accumulator; the
  \<open>break\<close> is the test after each sentence.
\<close>

fun follow_up_loop :: "string list \<Rightarrow> string list \<Rightarrow> string list \<Rightarrow> string list" where
  "follow_up_loop [] previous_questions acc = acc"
| "follow_up_loop (s # ss) previous_questions acc =
     (let sentence = strip s;
          acc' = (if length sentence > 20
                  then (if question_of sentence \<notin> set previous_questions
                        then acc @ [question_of sentence] else acc)
                  else acc)
      in if length acc' \<ge> 3 then acc' else follow_up_loop ss previous_questions acc')"

definition generate_follow_up_questions :: "string \<Rightarrow> string list \<Rightarrow> string list" where
  "generate_follow_up_questions text previous_questions =
     follow_up_loop
       (split_sentences (collapse_whitespace (sub_number_separators text)))
       previous_questions []"

text \<open>
  The questions the loop can accept, in sentence order: one for every sentence longer than
  20 characters after stripping whose question is not among the previous ones.
\<close>

definition candidates :: "string list \<Rightarrow> string list \<Rightarrow> string list" where
  "candidates sentences previous_questions =
     filter (\<lambda>q. q \<notin> set previous_questions)
       (map question_of (filter (\<lambda>s. length s > 20) (map strip sentences)))"

section \<open>Process-wide state\<close>

text \<open>
  The module's globals: \<open>pdf_texts\<close> (a dict, kept as an association list in insertion
  order because ranking indexes \<open>list(pdf_texts.values())\<close>), \<open>file_details\<close>,
  \<open>user_query_history\<close> and the one \<open>chat_session\<close> shared by every request.
\<close>

record file_detail =
  file_name :: string
  file_path :: string
  mime_type :: string

record session =
  query :: string
  follow_up_questions :: "string list"
  relevant_text :: string

record 'c state =
  pdf_texts :: "(string \<times> string) list"
  file_details :: "file_detail list"
  user_query_history :: "string \<rightharpoonup> session"
  chat_session :: 'c

text \<open>\<open>d[k] = v\<close> on a dict: an existing key keeps its position, a new key goes last.\<close>

fun dict_set :: "('k \<times> 'v) list \<Rightarrow> 'k \<Rightarrow> 'v \<Rightarrow> ('k \<times> 'v) list" where
  "dict_set [] k v = [(k, v)]"
| "dict_set ((k', v') # d) k v =
     (if k' = k then (k, v) # d else (k', v') # dict_set d k v)"

datatype error =
    EmptyCorpus
  | EmptyQuery
  | InsufficientCorpus
  | VectorizerError string
  | IndexError
  | GenerationError string

text \<open>\<open>str(e)\<close>: the messages of the \<open>ValueError\<close>s raised by rank_documents.\<close>

fun str_of_error :: "error \<Rightarrow> string" where
  "str_of_error EmptyCorpus =
     ''No documents found to rank against. Ensure documents are loaded correctly.''"
| "str_of_error EmptyQuery = ''Query is empty or contains only whitespace.''"
| "str_of_error InsufficientCorpus =
     ''There are no valid documents to compare the query against.''"
| "str_of_error (VectorizerError msg) = msg"
| "str_of_error IndexError = ''list index out of range''"
| "str_of_error (GenerationError msg) = msg"

section \<open>load_all_files\<close>

text \<open>
  The file system is an input: what \<open>os.walk(FILES_DIRECTORY)\<close> yields, the pages a PDF
  reader gives for a path (each page's \<open>extract_text()\<close>, possibly \<open>None\<close>) and the
  contents of a text file; opening or parsing may raise.
\<close>

record filesystem =
  os_walk :: "(string \<times> string list \<times> string list) list"
  pdf_pages :: "string \<Rightarrow> string + string option list"
  file_contents :: "string \<Rightarrow> string + string"

definition endswith :: "string \<Rightarrow> string \<Rightarrow> bool" where
  "endswith s suf = (take (length suf) (rev s) = rev suf)"

definition os_path_join :: "string \<Rightarrow> string \<Rightarrow> string" where
  "os_path_join a b =
     (if take 1 b = ''/'' then b
      else if a = [] \<or> endswith a ''/'' then a @ b
      else a @ ''/'' @ b)"

definition extract_text_from_pdf :: "filesystem \<Rightarrow> string \<Rightarrow> string + string" where
  "extract_text_from_pdf fs path =
     (case pdf_pages fs path of
        Inl e \<Rightarrow> Inl e
      | Inr pages \<Rightarrow>
          Inr (foldl (\<lambda>text page. text @ (case page of None \<Rightarrow> [] | Some t \<Rightarrow> t)) [] pages))"

definition extract_text_from_text_file :: "filesystem \<Rightarrow> string \<Rightarrow> string + string" where
  "extract_text_from_text_file fs path = file_contents fs path"

text \<open>The body of the inner loop, for one file name under one dirpath.\<close>

definition load_file :: "filesystem \<Rightarrow> string \<Rightarrow> string \<Rightarrow> 'c state \<Rightarrow> 'c state" where
  "load_file fs dirpath fname s =
     (let path = os_path_join dirpath fname;
          mime = (if endswith fname ''.pdf'' then Some ''application/pdf''
                  else if endswith fname ''.txt'' then Some ''text/plain''
                  else None)
      in case mime of
           None \<Rightarrow> s
         | Some m \<Rightarrow>
             (let s1 = s\<lparr>file_details := file_details s
                          @ [\<lparr>file_name = fname, file_path = path, mime_type = m\<rparr>]\<rparr>
              in if m = ''application/pdf'' then
                   (case extract_text_from_pdf fs path of
                      Inl e \<Rightarrow> s1
                    | Inr file_text \<Rightarrow> s1\<lparr>pdf_texts := dict_set (pdf_texts s1) path file_text\<rparr>)
                 else if m = ''text/plain'' then
                   (case extract_text_from_text_file fs path of
                      Inl e \<Rightarrow> s1
                    | Inr file_text \<Rightarrow> s1\<lparr>pdf_texts := dict_set (pdf_texts s1) path file_text\<rparr>)
                 else s1))"

definition load_all_files :: "filesystem \<Rightarrow> 'c state \<Rightarrow> file_detail list \<times> 'c state" where
  "load_all_files fs s =
     (let s' = foldl (\<lambda>s1 (dirpath, dirs, files). foldl (\<lambda>s2 fname. load_file fs dirpath fname s2) s1 files)
                 (s\<lparr>file_details := []\<rparr>) (os_walk fs)
      in (file_details s', s'))"

section \<open>rank_documents\<close>

text \<open>
  scikit-learn and numpy are inputs of the model. \<open>TfidfVectorizer.fit_transform\<close> is
  \<open>fit\<close> on all the texts (which may raise, for instance on an empty vocabulary)
  followed by \<open>transform\<close>, one row per text; \<open>cosine_similarity\<close> scores two rows;
  \<open>argsort\<close> is \<open>ndarray.argsort()\<close>. Scores are reals: a float that is not a number
  is not modelled.
\<close>

record ('f, 'v) sklearn =
  fit :: "string list \<Rightarrow> string + 'f"
  transform :: "'f \<Rightarrow> string \<Rightarrow> 'v"
  cosine_similarity :: "'v \<Rightarrow> 'v \<Rightarrow> real"
  argsort :: "real list \<Rightarrow> nat list"

text \<open>
  What numpy documents of \<open>argsort\<close>: the indices of the array, each once, in an order
  that sorts it. The default kind is not a stable sort, so the order among equal
  entries is left open.
\<close>

definition argsort_ok :: "('f, 'v) sklearn \<Rightarrow> bool" where
  "argsort_ok L =
     (\<forall>xs. distinct (argsort L xs) \<and> set (argsort L xs) = {..<length xs}
           \<and> sorted (map (\<lambda>i. xs ! i) (argsort L xs)))"

text \<open>
  A stable argsort (numpy's \<open>kind='stable'\<close>, and what its default insertion sort does
  on short arrays): equal entries keep ascending index order.
\<close>

definition stable_argsort :: "real list \<Rightarrow> nat list" where
  "stable_argsort xs = sort_key (\<lambda>i. xs ! i) [0..<length xs]"

text \<open>
  \<open>heapq.nlargest(n, iterable, key)\<close> is \<open>sorted(iterable, key=key, reverse=True)[:n]\<close>;
  a reversed \<open>sorted\<close> is still stable, that is, a stable sort by descending key.
\<close>

definition nlargest :: "nat \<Rightarrow> 'a list \<Rightarrow> ('a \<Rightarrow> real) \<Rightarrow> 'a list" where
  "nlargest n xs key = take n (sort_key (\<lambda>x. - key x) xs)"

definition rank_documents :: "('f, 'v) sklearn \<Rightarrow> 'c state \<Rightarrow> string \<Rightarrow> error + nat list" where
  "rank_documents L s user_query =
     (if pdf_texts s = [] then Inl EmptyCorpus
      else
        let all_texts = map snd (pdf_texts s) in
        if strip user_query = [] then Inl EmptyQuery
        else
          case fit L (all_texts @ [user_query]) of
            Inl msg \<Rightarrow> Inl (VectorizerError msg)
          | Inr fitted \<Rightarrow>
              let tfidf_matrix = map (transform L fitted) (all_texts @ [user_query]) in
              if length tfidf_matrix < 2 then Inl InsufficientCorpus
              else
                let cosine_sim = map (cosine_similarity L (last tfidf_matrix))
                                     (butlast tfidf_matrix);
                    ranked_docs = rev (argsort L cosine_sim)
                in Inr (nlargest 3 ranked_docs (\<lambda>idx. cosine_sim ! idx)))"

section \<open>chatbot_respond\<close>

definition newline :: char where
  "newline = CHR 0x0A"

fun collect_relevant_text :: "string list \<Rightarrow> nat list \<Rightarrow> string \<Rightarrow> error + string" where
  "collect_relevant_text texts [] acc = Inr acc"
| "collect_relevant_text texts (idx # rest) acc =
     (if idx < length texts
      then collect_relevant_text texts rest (acc @ texts ! idx @ [newline])
      else Inl IndexError)"

definition system_prompt :: "string \<Rightarrow> string \<Rightarrow> string" where
  "system_prompt user_query context =
     [newline]
     @ ''       You are a knowledgeable assistant. Your role is to provide accurate and concise responses based only on the information in the provided documents.''
     @ [newline]
     @ ''        User'' @ [CHR 0x27] @ ''s Question: '' @ [CHR 0x22] @ user_query @ [CHR 0x22]
     @ [newline]
     @ ''        Relevant Context from Documents:''
     @ [newline]
     @ ''        '' @ context
     @ [newline]
     @ ''        Answer the user'' @ [CHR 0x27] @ ''s question in a professional tone, using no more than 100 words. Do not include any information that is not found in the documents.''
     @ [newline]
     @ ''        ''"

text \<open>
  The body of the \<open>try\<close>: the result is the error raised, or the pair returned. The
  state is returned in both cases, as the session entry is written before the generation
  call. \<open>send_message\<close> is the generation service: from the shared chat session and a
  prompt it gives the reply text, or the message of the error it raises, and the chat
  session after the call.
\<close>

definition respond_body ::
  "('f, 'v) sklearn \<Rightarrow> ('c \<Rightarrow> string \<Rightarrow> (string + string) \<times> 'c) \<Rightarrow> string \<Rightarrow> string
   \<Rightarrow> 'c state \<Rightarrow> (error + string \<times> string list) \<times> 'c state" where
  "respond_body L send_message user_query session_id s =
     (case rank_documents L s user_query of
        Inl e \<Rightarrow> (Inl e, s)
      | Inr ranked_docs \<Rightarrow>
          (case collect_relevant_text (map snd (pdf_texts s)) ranked_docs [] of
             Inl e \<Rightarrow> (Inl e, s)
           | Inr context \<Rightarrow>
               let previous_questions =
                     (case user_query_history s session_id of
                        None \<Rightarrow> []
                      | Some h \<Rightarrow> follow_up_questions h);
                   questions = generate_follow_up_questions context previous_questions;
                   s1 = s\<lparr>user_query_history := (user_query_history s)(session_id \<mapsto>
                          \<lparr>query = user_query, follow_up_questions = questions,
                           relevant_text = context\<rparr>)\<rparr>;
                   (reply, chat') = send_message (chat_session s1) (system_prompt user_query context);
                   s2 = s1\<lparr>chat_session := chat'\<rparr>
               in case reply of
                    Inl msg \<Rightarrow> (Inl (GenerationError msg), s2)
                  | Inr text \<Rightarrow> (Inr (strip text, questions), s2)))"

text \<open>The \<open>except Exception\<close> clause turns every error into an answer string.\<close>

definition chatbot_respond ::
  "('f, 'v) sklearn \<Rightarrow> ('c \<Rightarrow> string \<Rightarrow> (string + string) \<times> 'c) \<Rightarrow> string \<Rightarrow> string
   \<Rightarrow> 'c state \<Rightarrow> (string \<times> string list) \<times> 'c state" where
  "chatbot_respond L send_message user_query session_id s =
     (case respond_body L send_message user_query session_id s of
        (Inl e, s') \<Rightarrow> ((''Error processing your query: '' @ str_of_error e, []), s')
      | (Inr answer, s') \<Rightarrow> (answer, s'))"

section \<open>Auxiliary notions and concrete inputs\<close>

text \<open>
  The score rank_documents gives each document of the corpus: the similarity of the
  query's row and the document's row under the fitted vectorizer.
\<close>

definition cosine_scores :: "('f, 'v) sklearn \<Rightarrow> 'f \<Rightarrow> string list \<Rightarrow> string \<Rightarrow> real list" where
  "cosine_scores L fitted all_texts user_query =
     map (\<lambda>t. cosine_similarity L (transform L fitted user_query) (transform L fitted t))
         all_texts"

text \<open>The relevant-text block of a ranking: each ranked text followed by a newline.\<close>

definition context_of :: "string list \<Rightarrow> nat list \<Rightarrow> string" where
  "context_of texts ranked = concat (map (\<lambda>idx. texts ! idx @ [newline]) ranked)"

definition previous_questions_of :: "'c state \<Rightarrow> string \<Rightarrow> string list" where
  "previous_questions_of s session_id =
     (case user_query_history s session_id of None \<Rightarrow> [] | Some h \<Rightarrow> follow_up_questions h)"

text \<open>
  A small stand-in for the library, to run the model on concrete inputs: a row is the
  word list of a text, the score of a document is the number of its words that occur
  in the query, fitting fails when no text has a word, and argsort is the stable one.
\<close>

definition shared_words :: "string list \<Rightarrow> string list \<Rightarrow> real" where
  "shared_words q d = of_nat (length (filter (\<lambda>w. w \<in> set q) d))"

definition toy_fit :: "string list \<Rightarrow> string + unit" where
  "toy_fit texts =
     (if concat (map split texts) = []
      then Inl ''empty vocabulary; perhaps the documents only contain stop words''
      else Inr ())"

definition toy_transform :: "unit \<Rightarrow> string \<Rightarrow> string list" where
  "toy_transform fitted t = split t"

definition toy_vectorizer :: "(unit, string list) sklearn" where
  "toy_vectorizer =
     \<lparr>fit = toy_fit, transform = toy_transform, cosine_similarity = shared_words,
      argsort = stable_argsort\<rparr>"

definition no_history :: "string \<rightharpoonup> session" where
  "no_history = Map.empty"

definition corpus_state :: "(string \<times> string) list \<Rightarrow> unit state" where
  "corpus_state docs =
     \<lparr>pdf_texts = docs, file_details = [], user_query_history = no_history,
      chat_session = ()\<rparr>"

definition fixed_reply :: "unit \<Rightarrow> string \<Rightarrow> (string + string) \<times> unit" where
  "fixed_reply chat prompt = (Inr '' The sky is blue. '', chat)"

definition sky_corpus :: "unit state" where
  "sky_corpus = corpus_state
     [(''files/sky.txt'',
       ''The sky is blue today. Clouds form from water vapor condensation process.'')]"

definition twin_corpus :: "unit state" where
  "twin_corpus = corpus_state
     [(''files/a.txt'', ''blue sky''), (''files/b.txt'', ''blue sky'')]"

definition four_corpus :: "unit state" where
  "four_corpus = corpus_state
     [(''files/a.txt'', ''green grass''), (''files/b.txt'', ''blue sky''),
      (''files/c.txt'', ''sky sky blue''), (''files/d.txt'', ''the blue sea'')]"

definition empty_corpus :: "unit state" where
  "empty_corpus = corpus_state []"

definition stale_corpus :: "unit state" where
  "stale_corpus = corpus_state [(''files/old.txt'', ''old text'')]"

definition cannot_open :: "string \<Rightarrow> string + string option list" where
  "cannot_open path = Inl ''cannot open''"

definition reads_new_text :: "string \<Rightarrow> string + string" where
  "reads_new_text path = Inr ''new text''"

definition files_now :: filesystem where
  "files_now =
     \<lparr>os_walk = [(''files'', [], [''new.txt'', ''notes.md'', ''broken.pdf''])],
      pdf_pages = cannot_open, file_contents = reads_new_text\<rparr>"

definition tie_corpus :: "unit state" where
  "tie_corpus = corpus_state
     [(''files/a.txt'', ''blue sky''), (''files/b.txt'', ''green grass''),
      (''files/c.txt'', ''sky blue''), (''files/d.txt'', ''sky'')]"

section \<open>Follow-up generation: the loop as a filter\<close>

lemma candidates_Nil: "candidates [] prev = []"
  by (simp add: candidates_def)

lemma candidates_Cons:
  "candidates (s # ss) prev =
     (if length (strip s) > 20 \<and> question_of (strip s) \<notin> set prev
      then question_of (strip s) # candidates ss prev else candidates ss prev)"
  by (simp add: candidates_def)

lemma follow_up_loop_take:
  "length acc < 3 \<Longrightarrow> follow_up_loop ss prev acc = take 3 (acc @ candidates ss prev)"
proof (induction ss arbitrary: acc)
  case Nil
  then show ?case by (simp add: candidates_Nil)
next
  case (Cons s ss)
  show ?case
  proof (cases "length (strip s) > 20 \<and> question_of (strip s) \<notin> set prev")
    case False
    have a: "follow_up_loop (s # ss) prev acc = follow_up_loop ss prev acc"
      using False Cons.prems by (auto simp: Let_def)
    have b: "candidates (s # ss) prev = candidates ss prev"
      using False by (simp add: candidates_Cons)
    show ?thesis unfolding a b by (rule Cons.IH [OF Cons.prems])
  next
    case True
    have b: "candidates (s # ss) prev = question_of (strip s) # candidates ss prev"
      using True by (simp add: candidates_Cons)
    show ?thesis
    proof (cases "length acc = 2")
      case two: True
      have a: "follow_up_loop (s # ss) prev acc = acc @ [question_of (strip s)]"
        using True two by (simp add: Let_def)
      show ?thesis unfolding a b using two by simp
    next
      case False
      then have small: "length (acc @ [question_of (strip s)]) < 3"
        using Cons.prems by simp
      have a: "follow_up_loop (s # ss) prev acc
            = follow_up_loop ss prev (acc @ [question_of (strip s)])"
        using True small by (simp add: Let_def)
      show ?thesis unfolding a b Cons.IH [OF small] by simp
    qed
  qed
qed

lemma generate_eq:
  "generate_follow_up_questions text prev =
     take 3 (candidates (split_sentences (collapse_whitespace (sub_number_separators text))) prev)"
  by (simp add: generate_follow_up_questions_def follow_up_loop_take)

lemma candidates_fresh: "set (candidates ss prev) \<inter> set prev = {}"
  by (auto simp: candidates_def)

text \<open>
  C5, as amended. generate_follow_up_questions returns at most 3 questions and none of
  them is textually identical to a question of the previous questions. (Nothing is said
  about duplicates inside the returned list.)
\<close>

theorem generate_at_most_3_fresh:
  "length (generate_follow_up_questions text prev) \<le> 3
   \<and> set (generate_follow_up_questions text prev) \<inter> set prev = {}"
proof -
  have "set (generate_follow_up_questions text prev)
        \<subseteq> set (candidates (split_sentences (collapse_whitespace (sub_number_separators text))) prev)"
    unfolding generate_eq by (rule set_take_subset)
  then show ?thesis using candidates_fresh [of _ prev] by (auto simp: generate_eq)
qed

theorem generate_at_most_3_fresh_witness:
  "length (generate_follow_up_questions
             ''The sky is blue today. Clouds form from water vapor condensation process.''
             [''What about The sky is blue today.?'']) \<le> 3
   \<and> set (generate_follow_up_questions
             ''The sky is blue today. Clouds form from water vapor condensation process.''
             [''What about The sky is blue today.?''])
       \<inter> set [''What about The sky is blue today.?''] = {}"
  by (rule generate_at_most_3_fresh)

text \<open>
  C5, counterexample. Only the follow-up questions of the preceding turn are kept for a
  session. In three turns on one session the second turn returns no question, so the
  third turn starts from an empty list of previous questions and returns the two
  questions of the first turn again: they are not unique within the session's history.
\<close>

theorem generate_recurs_counterexample:
  "snd (fst (chatbot_respond toy_vectorizer fixed_reply ''why is the sky blue'' ''s1''
               sky_corpus))
     = [''What about The sky is blue today.?'', ''What about Clouds form from water vapor?'']
   \<and> snd (fst (chatbot_respond toy_vectorizer fixed_reply ''sky'' ''s1''
       (snd (chatbot_respond toy_vectorizer fixed_reply ''blue sky'' ''s1''
          (snd (chatbot_respond toy_vectorizer fixed_reply ''why is the sky blue'' ''s1''
                  sky_corpus))))))
     = [''What about The sky is blue today.?'', ''What about Clouds form from water vapor?'']"
  by code_simp

text \<open>
  Within one call the guard of the loop compares a question with the previous questions
  only, not with the list being built: two sentences with the same first five words give
  the same question twice.
\<close>

theorem generate_repeats_within_list:
  "generate_follow_up_questions
     ''The quick brown fox jumps over. The quick brown fox jumps high.'' []
   = [''What about The quick brown fox jumps?'', ''What about The quick brown fox jumps?'']"
  by code_simp

text \<open>
  C8, as amended. The questions returned are, in sentence order, the first three of:
  for every sentence whose stripped length is greater than 20 (at least 21), the question
  "What about " + its first 5 whitespace-delimited words + "?", unless that question is
  among the previous ones. A sentence of stripped length 20 or less yields no question.
\<close>

theorem generate_characterisation:
  "generate_follow_up_questions text prev =
     take 3 (filter (\<lambda>q. q \<notin> set prev)
       (map (\<lambda>s. ''What about '' @ join '' '' (take 5 (split s)) @ ''?'')
         (filter (\<lambda>s. length s > 20)
           (map strip (split_sentences (collapse_whitespace (sub_number_separators text)))))))"
proof -
  have "question_of = (\<lambda>s. ''What about '' @ join '' '' (take 5 (split s)) @ ''?'')"
    by (rule ext) (simp add: question_of_def)
  then show ?thesis by (simp add: generate_eq candidates_def)
qed

theorem generate_characterisation_witness:
  "generate_follow_up_questions
     ''The sky is blue today. Clouds form from water vapor condensation process.''
     [''What about The sky is blue today.?'']
   = [''What about Clouds form from water vapor?'']"
  by (subst generate_characterisation) code_simp

text \<open>
  C8, counterexample. A sentence of exactly 20 characters after stripping yields no
  question: the test is \<open>len(sentence) > 20\<close>.
\<close>

theorem generate_length_20_counterexample:
  "length (strip ''abcdefghij klmnopqr.'') = 20
   \<and> generate_follow_up_questions ''abcdefghij klmnopqr.'' [] = []"
  by code_simp

section \<open>Ranking\<close>

lemma rank_documents_success:
  assumes "rank_documents L s q = Inr r"
  obtains fitted where "pdf_texts s \<noteq> []" and "strip q \<noteq> []"
    and "fit L (map snd (pdf_texts s) @ [q]) = Inr fitted"
    and "r = nlargest 3 (rev (argsort L (cosine_scores L fitted (map snd (pdf_texts s)) q)))
                (\<lambda>idx. cosine_scores L fitted (map snd (pdf_texts s)) q ! idx)"
proof -
  from assms have ne: "pdf_texts s \<noteq> []" and nq: "strip q \<noteq> []"
    by (auto simp: rank_documents_def split: if_splits)
  from assms ne nq obtain fitted where f: "fit L (map snd (pdf_texts s) @ [q]) = Inr fitted"
    by (cases "fit L (map snd (pdf_texts s) @ [q])") (auto simp: rank_documents_def Let_def)
  have "r = nlargest 3 (rev (argsort L (cosine_scores L fitted (map snd (pdf_texts s)) q)))
                (\<lambda>idx. cosine_scores L fitted (map snd (pdf_texts s)) q ! idx)"
    using assms ne nq f
    by (auto simp: rank_documents_def Let_def cosine_scores_def butlast_append comp_def split: if_splits)
  with ne nq f show thesis by (rule that)
qed

lemma length_cosine_scores [simp]: "length (cosine_scores L fitted texts q) = length texts"
  by (simp add: cosine_scores_def)

lemma argsort_ok_length: "argsort_ok L \<Longrightarrow> length (argsort L xs) = length xs"
proof -
  assume ok: "argsort_ok L"
  then have "distinct (argsort L xs)" and "set (argsort L xs) = {..<length xs}"
    by (simp_all add: argsort_ok_def)
  then show ?thesis using distinct_card [of "argsort L xs"] by simp
qed

lemma set_nlargest: "set (nlargest n xs key) \<subseteq> set xs"
  using set_take_subset [of n "sort_key (\<lambda>x. - key x) xs"] by (simp add: nlargest_def)

lemma distinct_nlargest: "distinct xs \<Longrightarrow> distinct (nlargest n xs key)"
  by (simp add: nlargest_def)

lemma length_nlargest: "length (nlargest n xs key) = min n (length xs)"
  by (simp add: nlargest_def min.commute)

lemma sorted_nlargest: "sorted_wrt (\<lambda>x y. key y \<le> key x) (nlargest n xs key)"
proof -
  have "sorted (map (\<lambda>x. - key x) (sort_key (\<lambda>x. - key x) xs))"
    by (rule sorted_sort_key)
  then have "sorted_wrt (\<lambda>x y. key y \<le> key x) (sort_key (\<lambda>x. - key x) xs)"
    by (simp add: sorted_map)
  then show ?thesis unfolding nlargest_def by (rule sorted_wrt_take)
qed

lemma filter_nlargest_prefix:
  "prefix (filter (\<lambda>x. key x = c) (nlargest n xs key)) (filter (\<lambda>x. key x = c) xs)"
proof -
  have "filter (\<lambda>x. - key x = - c) (sort_key (\<lambda>x. - key x) xs) = filter (\<lambda>x. - key x = - c) xs"
    by (rule sort_key_stable)
  then have "filter (\<lambda>x. key x = c) (sort_key (\<lambda>x. - key x) xs) = filter (\<lambda>x. key x = c) xs"
    by simp
  moreover have "prefix (filter (\<lambda>x. key x = c) (take n (sort_key (\<lambda>x. - key x) xs)))
                        (filter (\<lambda>x. key x = c) (sort_key (\<lambda>x. - key x) xs))"
    by (rule filter_mono_prefix) (rule take_is_prefix)
  ultimately show ?thesis by (simp add: nlargest_def)
qed

lemma sorted_wrt_ties:
  "sorted_wrt (\<lambda>x y. key y \<le> key x) xs \<Longrightarrow>
   (\<And>c. sorted_wrt R (filter (\<lambda>x. key x = c) xs)) \<Longrightarrow>
   sorted_wrt (\<lambda>x y. key y < key x \<or> (key x = key y \<and> R x y)) xs"
  for key :: "'a \<Rightarrow> real"
proof (induction xs)
  case Nil
  show ?case by simp
next
  case (Cons x xs)
  have tail: "sorted_wrt R (filter (\<lambda>x. key x = c) xs)" for c
    using Cons.prems(2) [of c] by (simp split: if_splits)
  have rest: "sorted_wrt (\<lambda>x y. key y < key x \<or> (key x = key y \<and> R x y)) xs"
    using Cons.prems(1) tail by (intro Cons.IH) simp_all
  have "key y < key x \<or> (key x = key y \<and> R x y)" if y: "y \<in> set xs" for y
  proof (cases "key y = key x")
    case True
    then have "R x y" using Cons.prems(2) [of "key x"] y by simp
    with True show ?thesis by simp
  next
    case False
    moreover have "key y \<le> key x" using Cons.prems(1) y by simp
    ultimately show ?thesis by simp
  qed
  with rest show ?case by simp
qed

lemma prefix_sorted_wrt: "prefix xs ys \<Longrightarrow> sorted_wrt R ys \<Longrightarrow> sorted_wrt R xs"
  by (auto simp: prefix_def sorted_wrt_append)

lemma filter_rev_stable_argsort:
  "sorted_wrt (\<lambda>i j. j < i) (filter (\<lambda>i. xs ! i = c) (rev (stable_argsort xs)))"
proof -
  have "filter (\<lambda>i. xs ! i = c) (stable_argsort xs) = filter (\<lambda>i. xs ! i = c) [0..<length xs]"
    unfolding stable_argsort_def by (rule sort_key_stable)
  moreover have "sorted_wrt (<) (filter (\<lambda>i. xs ! i = c) [0..<length xs])"
    by (rule sorted_wrt_filter) (simp add: sorted_wrt_upt)
  ultimately show ?thesis by (simp add: rev_filter [symmetric] sorted_wrt_rev)
qed

lemma stable_argsort_ok:
  "distinct (stable_argsort xs) \<and> set (stable_argsort xs) = {..<length xs}
   \<and> sorted (map (\<lambda>i. xs ! i) (stable_argsort xs))"
  by (auto simp: stable_argsort_def)

lemma toy_argsort_ok: "argsort_ok toy_vectorizer"
  by (simp add: argsort_ok_def toy_vectorizer_def stable_argsort_ok)

text \<open>
  C1. When rank_documents succeeds and argsort meets its contract, the result holds
  min(3, number of documents) indices, so at most 3 and fewer only for a corpus of fewer
  than 3 documents; every index is a position of the corpus; no index occurs twice.
\<close>

theorem rank_documents_top3:
  assumes "argsort_ok L" and "rank_documents L s q = Inr r"
  shows "length r = min 3 (length (pdf_texts s)) \<and> set r \<subseteq> {..<length (pdf_texts s)} \<and> distinct r"
proof -
  from assms(2) obtain fitted where
    r: "r = nlargest 3 (rev (argsort L (cosine_scores L fitted (map snd (pdf_texts s)) q)))
                (\<lambda>idx. cosine_scores L fitted (map snd (pdf_texts s)) q ! idx)"
    by (rule rank_documents_success)
  let ?sc = "cosine_scores L fitted (map snd (pdf_texts s)) q"
  have d: "distinct (argsort L ?sc)" and m: "set (argsort L ?sc) = {..<length (pdf_texts s)}"
    using assms(1) by (simp_all add: argsort_ok_def)
  have "length r = min 3 (length (pdf_texts s))"
    unfolding r by (simp add: length_nlargest argsort_ok_length [OF assms(1)])
  moreover have "set r \<subseteq> {..<length (pdf_texts s)}"
    unfolding r using set_nlargest [of 3 "rev (argsort L ?sc)"] m by auto
  moreover have "distinct r"
    unfolding r using d by (simp add: distinct_nlargest)
  ultimately show ?thesis by simp
qed

theorem rank_documents_top3_witness:
  "argsort_ok toy_vectorizer
   \<and> rank_documents toy_vectorizer four_corpus ''blue sky'' = Inr [2, 1, 3]
   \<and> length [2, 1, 3 :: nat] = min 3 (length (pdf_texts four_corpus))
   \<and> set [2, 1, 3 :: nat] \<subseteq> {..<length (pdf_texts four_corpus)}
   \<and> distinct [2, 1, 3 :: nat]"
proof -
  have r: "rank_documents toy_vectorizer four_corpus ''blue sky'' = Inr [2, 1, 3]"
    by code_simp
  from rank_documents_top3 [OF toy_argsort_ok r] r toy_argsort_ok show ?thesis
    by blast
qed

text \<open>
  C2, as amended. When rank_documents succeeds, the result is ordered by descending
  cosine-similarity score, and documents with equal scores appear in the order in which
  the reversed argsort of the scores lists them; under a stable argsort that is the
  reverse of corpus order: of two documents with equal scores the later one comes first.
\<close>

theorem rank_documents_order:
  assumes "rank_documents L s q = Inr r"
    and "fit L (map snd (pdf_texts s) @ [q]) = Inr fitted"
    and "sc = cosine_scores L fitted (map snd (pdf_texts s)) q"
  shows "sorted_wrt (\<lambda>i j. sc ! j \<le> sc ! i) r
    \<and> (\<forall>c. prefix (filter (\<lambda>i. sc ! i = c) r) (filter (\<lambda>i. sc ! i = c) (rev (argsort L sc))))
    \<and> (argsort L sc = stable_argsort sc \<longrightarrow>
         sorted_wrt (\<lambda>i j. sc ! j < sc ! i \<or> (sc ! i = sc ! j \<and> j < i)) r)"
proof -
  from assms(1) obtain fitted' where
    f: "fit L (map snd (pdf_texts s) @ [q]) = Inr fitted'" and
    r': "r = nlargest 3 (rev (argsort L (cosine_scores L fitted' (map snd (pdf_texts s)) q)))
                (\<lambda>idx. cosine_scores L fitted' (map snd (pdf_texts s)) q ! idx)"
    by (rule rank_documents_success)
  from f assms(2) have "fitted' = fitted" by simp
  with r' assms(3) have r: "r = nlargest 3 (rev (argsort L sc)) (\<lambda>idx. sc ! idx)" by simp
  have desc: "sorted_wrt (\<lambda>i j. sc ! j \<le> sc ! i) r"
    unfolding r by (rule sorted_nlargest)
  have pre: "prefix (filter (\<lambda>i. sc ! i = c) r) (filter (\<lambda>i. sc ! i = c) (rev (argsort L sc)))" for c
    unfolding r by (rule filter_nlargest_prefix)
  have "sorted_wrt (\<lambda>i j. sc ! j < sc ! i \<or> (sc ! i = sc ! j \<and> j < i)) r"
    if st: "argsort L sc = stable_argsort sc"
  proof (rule sorted_wrt_ties [OF desc])
    fix c
    show "sorted_wrt (\<lambda>i j. j < i) (filter (\<lambda>i. sc ! i = c) r)"
      using pre [of c] filter_rev_stable_argsort [of sc c] st
      by (auto intro: prefix_sorted_wrt)
  qed
  with desc pre show ?thesis by blast
qed

theorem rank_documents_order_witness:
  "rank_documents toy_vectorizer tie_corpus ''blue sky'' = Inr [2, 0, 3]
   \<and> fit toy_vectorizer (map snd (pdf_texts tie_corpus) @ [''blue sky'']) = Inr ()
   \<and> cosine_scores toy_vectorizer () (map snd (pdf_texts tie_corpus)) ''blue sky''
       = [2, 0, 2, 1]
   \<and> sorted_wrt (\<lambda>i j. [2, 0, 2, 1 :: real] ! j \<le> [2, 0, 2, 1] ! i) [2, 0, 3]
   \<and> sorted_wrt (\<lambda>i j. [2, 0, 2, 1 :: real] ! j < [2, 0, 2, 1] ! i
                      \<or> ([2, 0, 2, 1 :: real] ! i = [2, 0, 2, 1] ! j \<and> j < i)) [2, 0, 3]"
proof -
  have r: "rank_documents toy_vectorizer tie_corpus ''blue sky'' = Inr [2, 0, 3]"
    by code_simp
  have f: "fit toy_vectorizer (map snd (pdf_texts tie_corpus) @ [''blue sky'']) = Inr ()"
    by code_simp
  have sc: "cosine_scores toy_vectorizer () (map snd (pdf_texts tie_corpus)) ''blue sky''
       = [2, 0, 2, 1]"
    by code_simp
  have st: "argsort toy_vectorizer [2, 0, 2, 1] = stable_argsort [2, 0, 2, 1]"
    by (simp add: toy_vectorizer_def)
  from rank_documents_order [OF r f sc [symmetric]] st r f sc show ?thesis
    by blast
qed

text \<open>
  C2, counterexample. Two documents with the same text have the same score; the later
  one is returned first, not the earlier.
\<close>

theorem rank_documents_tie_counterexample:
  "map snd (pdf_texts twin_corpus) = [''blue sky'', ''blue sky'']
   \<and> rank_documents toy_vectorizer twin_corpus ''sky'' = Inr [1, 0]"
  by code_simp

section \<open>Failures of the ranker\<close>

lemma strip_empty_iff: "strip q = [] \<longleftrightarrow> (\<forall>c\<in>set q. is_space c)"
proof
  assume "strip q = []"
  then have all: "\<forall>c\<in>set (dropWhile is_space q). is_space c"
    by (simp add: strip_def dropWhile_eq_Nil_conv)
  have "dropWhile is_space q = []"
  proof (rule ccontr)
    assume ne: "dropWhile is_space q \<noteq> []"
    then have "\<not> is_space (hd (dropWhile is_space q))" by (rule hd_dropWhile)
    moreover have "hd (dropWhile is_space q) \<in> set (dropWhile is_space q)"
      using ne by simp
    ultimately show False using all by blast
  qed
  with dropWhile_eq_Nil_conv [of is_space q] show "\<forall>c\<in>set q. is_space c" by blast
next
  assume "\<forall>c\<in>set q. is_space c"
  with dropWhile_eq_Nil_conv [of is_space q] have d: "dropWhile is_space q = []" by blast
  show "strip q = []" unfolding strip_def d by simp
qed

text \<open>
  C6, as amended. For every non-empty corpus and every query that is empty or consists
  only of whitespace, rank_documents fails with EmptyQuery.
\<close>

theorem rank_documents_blank_query: "pdf_texts s \<noteq> [] \<Longrightarrow> \<forall>c\<in>set q. is_space c \<Longrightarrow> rank_documents L s q = Inl EmptyQuery"
  by (simp add: rank_documents_def strip_empty_iff)


theorem rank_documents_blank_query_witness:
  "pdf_texts sky_corpus \<noteq> [] \<and> list_all is_space ''   ''
   \<and> rank_documents toy_vectorizer sky_corpus ''   '' = Inl EmptyQuery"
proof -
  have a: "pdf_texts sky_corpus \<noteq> []" by code_simp
  have b: "\<forall>c\<in>set ''   ''. is_space c" by code_simp
  have c: "list_all is_space ''   ''" using b by (simp add: list_all_iff)
  from rank_documents_blank_query [OF a b] a c show ?thesis by blast
qed

text \<open>
  C6, counterexample. With no document loaded the empty query fails with EmptyCorpus:
  the corpus is tested before the query.
\<close>

theorem rank_documents_blank_query_counterexample:
  "rank_documents toy_vectorizer empty_corpus [] = Inl EmptyCorpus"
  by code_simp





section \<open>The orchestrator\<close>

lemma respond_body_rank_failure:
  "rank_documents L s q = Inl e \<Longrightarrow> respond_body L send q sid s = (Inl e, s)"
  by (simp add: respond_body_def)

text \<open>
  C3. When rank_documents fails, chatbot_respond returns the answer string
  "Error processing your query: " followed by the message of the error, with an empty
  follow-up list, and leaves the state as it was; in particular with an empty corpus.
  chatbot_respond is total and its result is always an answer pair: no error leaves it.
\<close>

theorem chatbot_respond_ranker_failure:
  "(\<forall>e. rank_documents L s q = Inl e \<longrightarrow>
        chatbot_respond L send q sid s
        = ((''Error processing your query: '' @ str_of_error e, []), s))
   \<and> (pdf_texts s = [] \<longrightarrow>
        chatbot_respond L send q sid s
        = ((''Error processing your query: No documents found to rank against. Ensure documents are loaded correctly.'', []), s))"
proof -
  have a: "chatbot_respond L send q sid s
        = ((''Error processing your query: '' @ str_of_error e, []), s)"
    if "rank_documents L s q = Inl e" for e
    using that by (simp add: chatbot_respond_def respond_body_rank_failure)
  have "rank_documents L s q = Inl EmptyCorpus" if "pdf_texts s = []"
    using that by (simp add: rank_documents_def)
  then have "chatbot_respond L send q sid s
        = ((''Error processing your query: No documents found to rank against. Ensure documents are loaded correctly.'', []), s)"
    if "pdf_texts s = []"
    using that a [of EmptyCorpus] by simp
  with a show ?thesis by blast
qed

theorem chatbot_respond_ranker_failure_witness:
  "pdf_texts empty_corpus = []
   \<and> chatbot_respond toy_vectorizer fixed_reply ''why is the sky blue'' ''s1'' empty_corpus
     = ((''Error processing your query: No documents found to rank against. Ensure documents are loaded correctly.'', []),
        empty_corpus)"
proof -
  have a: "pdf_texts empty_corpus = []" by code_simp
  from chatbot_respond_ranker_failure
         [of toy_vectorizer empty_corpus "''why is the sky blue''" fixed_reply "''s1''"] a
  show ?thesis by blast
qed

lemma collect_relevant_text_ok:
  "\<forall>idx\<in>set ranked. idx < length texts \<Longrightarrow>
   collect_relevant_text texts ranked acc = Inr (acc @ context_of texts ranked)"
  by (induction ranked arbitrary: acc) (simp_all add: context_of_def)

lemma respond_body_pdf_texts: "pdf_texts (snd (respond_body L send q sid s)) = pdf_texts s"
  by (simp add: respond_body_def Let_def split: sum.splits prod.splits)

lemma chatbot_respond_state: "snd (chatbot_respond L send q sid s) = snd (respond_body L send q sid s)"
  by (auto simp: chatbot_respond_def split: sum.splits prod.splits)

lemma chatbot_respond_pdf_texts: "pdf_texts (snd (chatbot_respond L send q sid s)) = pdf_texts s"
  by (simp add: chatbot_respond_state respond_body_pdf_texts)

lemma rank_documents_in_range:
  assumes "argsort_ok L" and "rank_documents L s q = Inr r"
  shows "\<forall>idx\<in>set r. idx < length (map snd (pdf_texts s))"
proof -
  from assms(2) obtain fitted where
    r: "r = nlargest 3 (rev (argsort L (cosine_scores L fitted (map snd (pdf_texts s)) q)))
                (\<lambda>idx. cosine_scores L fitted (map snd (pdf_texts s)) q ! idx)"
    by (rule rank_documents_success)
  let ?sc = "cosine_scores L fitted (map snd (pdf_texts s)) q"
  have "set (argsort L ?sc) = {..<length (pdf_texts s)}"
    using assms(1) by (simp add: argsort_ok_def)
  then show ?thesis
    unfolding r using set_nlargest [of 3 "rev (argsort L ?sc)"] by auto
qed

lemma respond_body_success:
  assumes "argsort_ok L" and "rank_documents L s q = Inr r"
    and "ctx = context_of (map snd (pdf_texts s)) r"
    and "qs = generate_follow_up_questions ctx (previous_questions_of s sid)"
  shows "user_query_history (snd (respond_body L send q sid s)) sid
         = Some \<lparr>query = q, follow_up_questions = qs, relevant_text = ctx\<rparr>"
    and "send (chat_session s) (system_prompt q ctx) = (Inr text, chat') \<Longrightarrow>
         fst (respond_body L send q sid s) = Inr (strip text, qs)"
    and "send (chat_session s) (system_prompt q ctx) = (Inl msg, chat') \<Longrightarrow>
         fst (respond_body L send q sid s) = Inl (GenerationError msg)"
proof -
  have c: "collect_relevant_text (map snd (pdf_texts s)) r [] = Inr ctx"
    using collect_relevant_text_ok [OF rank_documents_in_range [OF assms(1,2)], of "[]"] assms(3)
    by simp
  show "user_query_history (snd (respond_body L send q sid s)) sid
         = Some \<lparr>query = q, follow_up_questions = qs, relevant_text = ctx\<rparr>"
    using assms(2,4) c
    by (simp add: respond_body_def Let_def previous_questions_of_def split: sum.splits prod.splits)
  show "fst (respond_body L send q sid s) = Inr (strip text, qs)"
    if "send (chat_session s) (system_prompt q ctx) = (Inr text, chat')"
    using assms(2,4) c that
    by (simp add: respond_body_def Let_def previous_questions_of_def)
  show "fst (respond_body L send q sid s) = Inl (GenerationError msg)"
    if "send (chat_session s) (system_prompt q ctx) = (Inl msg, chat')"
    using assms(2,4) c that
    by (simp add: respond_body_def Let_def previous_questions_of_def)
qed

lemma session_entry_after_success:
  assumes "argsort_ok L"
    and "s1 = snd (chatbot_respond L send q1 sid s0)"
    and "rank_documents L s1 q2 = Inr r"
    and "ctx = context_of (map snd (pdf_texts s0)) r"
    and "qs = generate_follow_up_questions ctx (previous_questions_of s1 sid)"
  shows "user_query_history (snd (chatbot_respond L send q2 sid s1)) sid
           = Some \<lparr>query = q2, follow_up_questions = qs, relevant_text = ctx\<rparr>
    \<and> (\<forall>text chat'. send (chat_session s1) (system_prompt q2 ctx) = (Inr text, chat') \<longrightarrow>
          fst (chatbot_respond L send q2 sid s1) = (strip text, qs))"
proof -
  have p: "pdf_texts s1 = pdf_texts s0"
    unfolding assms(2) by (rule chatbot_respond_pdf_texts)
  have ctx: "ctx = context_of (map snd (pdf_texts s1)) r"
    using assms(4) p by simp
  have "user_query_history (snd (chatbot_respond L send q2 sid s1)) sid
           = Some \<lparr>query = q2, follow_up_questions = qs, relevant_text = ctx\<rparr>"
    unfolding chatbot_respond_state
    by (rule respond_body_success(1) [OF assms(1,3) ctx assms(5)])
  moreover have "fst (chatbot_respond L send q2 sid s1) = (strip reply, qs)"
    if "send (chat_session s1) (system_prompt q2 ctx) = (Inr reply, chat')" for reply chat'
    using respond_body_success(2) [where send = send and s = s1, OF assms(1,3) ctx assms(5) that]
    by (auto simp: chatbot_respond_def split: prod.splits)
  ultimately show ?thesis by blast
qed

lemma chatbot_respond_rank_failure_state:
  "rank_documents L s q = Inl e \<Longrightarrow> snd (chatbot_respond L send q sid s) = s"
  by (simp add: chatbot_respond_def respond_body_rank_failure)

text \<open>
  C9, as amended. After two sequential chatbot_respond turns on the same session
  identifier, if the ranking of the second turn succeeds, the session entry holds exactly
  the second turn's query, the follow-up questions generated in the second turn and the
  second turn's relevant text, whatever the first turn stored; and when the generation
  service answers, those follow-up questions are the ones returned. If the ranking of
  the second turn fails, the entry is left as the first turn left it.
\<close>

theorem session_overwritten:
  assumes "argsort_ok L" and "s1 = snd (chatbot_respond L send q1 sid s0)"
  shows "(\<forall>r. rank_documents L s1 q2 = Inr r \<longrightarrow>
            user_query_history (snd (chatbot_respond L send q2 sid s1)) sid
              = Some \<lparr>query = q2,
                      follow_up_questions =
                        generate_follow_up_questions (context_of (map snd (pdf_texts s0)) r)
                          (previous_questions_of s1 sid),
                      relevant_text = context_of (map snd (pdf_texts s0)) r\<rparr>
            \<and> (\<forall>reply chat'.
                  send (chat_session s1)
                    (system_prompt q2 (context_of (map snd (pdf_texts s0)) r))
                    = (Inr reply, chat') \<longrightarrow>
                  fst (chatbot_respond L send q2 sid s1)
                    = (strip reply,
                       generate_follow_up_questions (context_of (map snd (pdf_texts s0)) r)
                         (previous_questions_of s1 sid))))
     \<and> (\<forall>e. rank_documents L s1 q2 = Inl e \<longrightarrow>
            user_query_history (snd (chatbot_respond L send q2 sid s1)) sid
              = user_query_history s1 sid)"
proof (intro conjI allI impI)
  fix r
  assume r: "rank_documents L s1 q2 = Inr r"
  note ok = session_entry_after_success [OF assms(1) assms(2) r refl refl]
  from ok show "user_query_history (snd (chatbot_respond L send q2 sid s1)) sid
              = Some \<lparr>query = q2,
                      follow_up_questions =
                        generate_follow_up_questions (context_of (map snd (pdf_texts s0)) r)
                          (previous_questions_of s1 sid),
                      relevant_text = context_of (map snd (pdf_texts s0)) r\<rparr>"
    by (rule conjunct1)
  fix reply chat'
  assume "send (chat_session s1) (system_prompt q2 (context_of (map snd (pdf_texts s0)) r))
            = (Inr reply, chat')"
  with ok show "fst (chatbot_respond L send q2 sid s1)
                    = (strip reply,
                       generate_follow_up_questions (context_of (map snd (pdf_texts s0)) r)
                         (previous_questions_of s1 sid))"
    by blast
next
  fix e
  assume "rank_documents L s1 q2 = Inl e"
  then show "user_query_history (snd (chatbot_respond L send q2 sid s1)) sid
              = user_query_history s1 sid"
    by (simp add: chatbot_respond_rank_failure_state)
qed

theorem session_overwritten_witness:
  "argsort_ok toy_vectorizer
   \<and> rank_documents toy_vectorizer
        (snd (chatbot_respond toy_vectorizer fixed_reply ''why is the sky blue'' ''s1''
                sky_corpus)) ''blue sky'' = Inr [0]
   \<and> user_query_history
        (snd (chatbot_respond toy_vectorizer fixed_reply ''blue sky'' ''s1''
           (snd (chatbot_respond toy_vectorizer fixed_reply ''why is the sky blue'' ''s1''
                   sky_corpus)))) ''s1''
     = Some \<lparr>query = ''blue sky'', follow_up_questions = [],
             relevant_text = ''The sky is blue today. Clouds form from water vapor condensation process.'' @ [newline]\<rparr>
   \<and> rank_documents toy_vectorizer
        (snd (chatbot_respond toy_vectorizer fixed_reply ''why is the sky blue'' ''s1''
                sky_corpus)) ''   '' = Inl EmptyQuery
   \<and> user_query_history
        (snd (chatbot_respond toy_vectorizer fixed_reply ''   '' ''s1''
           (snd (chatbot_respond toy_vectorizer fixed_reply ''why is the sky blue'' ''s1''
                   sky_corpus)))) ''s1''
     = user_query_history
        (snd (chatbot_respond toy_vectorizer fixed_reply ''why is the sky blue'' ''s1''
                sky_corpus)) ''s1''"
proof -
  let ?s1 = "snd (chatbot_respond toy_vectorizer fixed_reply ''why is the sky blue'' ''s1''
                sky_corpus)"
  have r: "rank_documents toy_vectorizer ?s1 ''blue sky'' = Inr [0]"
    by code_simp
  have e: "rank_documents toy_vectorizer ?s1 ''   '' = Inl EmptyQuery"
    by code_simp
  have c: "context_of (map snd (pdf_texts sky_corpus)) [0]
           = ''The sky is blue today. Clouds form from water vapor condensation process.'' @ [newline]"
    by code_simp
  have g: "generate_follow_up_questions
              (''The sky is blue today. Clouds form from water vapor condensation process.'' @ [newline])
              (previous_questions_of ?s1 ''s1'') = []"
    by code_simp
  have a: "user_query_history
        (snd (chatbot_respond toy_vectorizer fixed_reply ''blue sky'' ''s1'' ?s1)) ''s1''
     = Some \<lparr>query = ''blue sky'',
             follow_up_questions =
               generate_follow_up_questions (context_of (map snd (pdf_texts sky_corpus)) [0])
                 (previous_questions_of ?s1 ''s1''),
             relevant_text = context_of (map snd (pdf_texts sky_corpus)) [0]\<rparr>"
    using session_overwritten [OF toy_argsort_ok refl,
            where send = fixed_reply and ?q1.0 = "''why is the sky blue''" and sid = "''s1''"
              and ?s0.0 = sky_corpus and ?q2.0 = "''blue sky''"] r
    by blast
  have b: "user_query_history
        (snd (chatbot_respond toy_vectorizer fixed_reply ''   '' ''s1'' ?s1)) ''s1''
     = user_query_history ?s1 ''s1''"
    using session_overwritten [OF toy_argsort_ok refl,
            where send = fixed_reply and ?q1.0 = "''why is the sky blue''" and sid = "''s1''"
              and ?s0.0 = sky_corpus and ?q2.0 = "''   ''"] e
    by blast
  from a have a': "user_query_history
        (snd (chatbot_respond toy_vectorizer fixed_reply ''blue sky'' ''s1'' ?s1)) ''s1''
     = Some \<lparr>query = ''blue sky'', follow_up_questions = [],
             relevant_text = ''The sky is blue today. Clouds form from water vapor condensation process.'' @ [newline]\<rparr>"
    unfolding c g .
  from toy_argsort_ok r a' e b show ?thesis by (intro conjI)
qed

text \<open>
  C9, counterexample. The second turn's query is all whitespace, so its ranking fails and
  the turn returns an error answer; the session entry still holds the first turn's query,
  follow-up questions and relevant text.
\<close>

theorem session_kept_counterexample:
  "user_query_history
     (snd (chatbot_respond toy_vectorizer fixed_reply ''   '' ''s1''
        (snd (chatbot_respond toy_vectorizer fixed_reply ''why is the sky blue'' ''s1''
                sky_corpus)))) ''s1''
   = Some \<lparr>query = ''why is the sky blue'',
           follow_up_questions = [''What about The sky is blue today.?'',
                                  ''What about Clouds form from water vapor?''],
           relevant_text = ''The sky is blue today. Clouds form from water vapor condensation process.'' @ [newline]\<rparr>"
  by code_simp

section \<open>Loading\<close>

text \<open>
  C4, the code at a failing input. The corpus holds a document of an earlier load whose
  file is gone; the scan finds one readable text file, one file of another type and one
  PDF that cannot be read. After load_all_files the old document is still in the corpus,
  while file_details lists only the files of this scan.
\<close>

theorem load_all_files_keeps_stale:
  "map fst (pdf_texts (snd (load_all_files files_now stale_corpus)))
     = [''files/old.txt'', ''files/new.txt'']
   \<and> map file_path (fst (load_all_files files_now stale_corpus))
     = [''files/new.txt'', ''files/broken.pdf'']"
  by code_simp

end
